theory Spec2Isabelle
  imports Main "HOL-Library.Word"
begin

unbundle bit_operations_syntax

section \<open>Mandos value interpreter (package mandosvalueinterpreter)\<close>

text \<open>
  A shallow embedding of \<^verbatim>\<open>test-util/mandos/json/valueinterpreter/interpreter.go\<close>.
  Go strings are byte strings and are modelled as \<^typ>\<open>string\<close>; a \<^verbatim>\<open>[]byte\<close> is a list
  of 8-bit words (a nil slice and an empty slice are both the empty list).
  A Go function returning \<^verbatim>\<open>([]byte, error)\<close> returns a pair whose second component is
  \<^term>\<open>None\<close> for a nil error, so that bytes returned next to an error stay visible.
  A run-time panic (an index out of range) is the separate outcome \<open>Panics\<close>.
\<close>

subsection \<open>Data\<close>

type_synonym byte = "8 word"

datatype error =
    ErrFileResolverNotProvided
      \<comment> \<open>\<^verbatim>\<open>parser FileResolver not provided\<close>\<close>
  | ErrExternal string
      \<comment> \<open>an error made by a collaborator (file resolver, hash, address)\<close>
  | ErrKeccakArgument error
      \<comment> \<open>\<^verbatim>\<open>cannot parse keccak256 argument: %w\<close>\<close>
  | ErrKeccakCompute error
      \<comment> \<open>\<^verbatim>\<open>error computing keccak256: %w\<close>\<close>
  | ErrParseBinary string
      \<comment> \<open>\<^verbatim>\<open>could not parse binary value: %s\<close>\<close>
  | ErrParseBase10 string
      \<comment> \<open>\<^verbatim>\<open>could not parse base 10 value: %s\<close>\<close>
  | ErrDoesNotFit string nat
      \<comment> \<open>\<^verbatim>\<open>representation of %s does not fit in %d bytes\<close>\<close>
  | ErrHexInvalidByte char
      \<comment> \<open>\<^verbatim>\<open>encoding/hex: invalid byte\<close>, carrying the byte\<close>
  | ErrHexLength
      \<comment> \<open>\<^verbatim>\<open>encoding/hex: odd length hex string\<close>\<close>
  | ErrTwosDoesNotFit
      \<comment> \<open>the error of \<^verbatim>\<open>twos.ToBytesOfLength\<close>\<close>
  | ErrCannotInterpretSubtree
      \<comment> \<open>\<^verbatim>\<open>cannot interpret given JSON subtree as value\<close>\<close>

type_synonym go_result = "byte list \<times> error option"

datatype 'a outcome = Returns 'a | Panics

text \<open>
  \<^verbatim>\<open>ValueInterpreter\<close> holds the file resolver, an interface value that may be nil.
  Of the interface only \<^verbatim>\<open>ResolveFileValue\<close> is called here.
\<close>

record ValueInterpreter =
  FileResolver :: "(string \<Rightarrow> go_result) option"

text \<open>
  \<^verbatim>\<open>keccak256\<close> and \<^verbatim>\<open>address\<close> are functions of the package whose file is not among the
  sources at hand; the interpreter is parameterised by them.
\<close>

record package_functions =
  keccak256 :: "byte list \<Rightarrow> go_result"
  address :: "byte list \<Rightarrow> go_result"

text \<open>
  The tree of package \<^verbatim>\<open>orderedjson\<close>: strings, lists and maps with their pairs in
  insertion order. The key type is left open (no key is ever inspected), and \<open>OJsonOther\<close>
  stands for every other implementation of the \<^verbatim>\<open>OJsonObject\<close> interface.
\<close>

datatype 'k OJsonObject =
    OJsonString string
  | OJsonList "'k OJsonObject list"
  | OJsonMap "('k \<times> 'k OJsonObject) list"
  | OJsonOther

subsection \<open>Constants\<close>

definition strPrefixes :: "string list" where
  "strPrefixes = [''str:'', [CHR 0x60, CHR 0x60], [CHR 0x27, CHR 0x27]]"

definition addrPrefix :: string where "addrPrefix = ''address:''"
definition filePrefix :: string where "filePrefix = ''file:''"
definition keccak256Prefix :: string where "keccak256Prefix = ''keccak256:''"

definition u64Prefix :: string where "u64Prefix = ''u64:''"
definition u32Prefix :: string where "u32Prefix = ''u32:''"
definition u16Prefix :: string where "u16Prefix = ''u16:''"
definition u8Prefix :: string where "u8Prefix = ''u8:''"
definition i64Prefix :: string where "i64Prefix = ''i64:''"
definition i32Prefix :: string where "i32Prefix = ''i32:''"
definition i16Prefix :: string where "i16Prefix = ''i16:''"
definition i8Prefix :: string where "i8Prefix = ''i8:''"

subsection \<open>The Go library functions the interpreter calls\<close>

text \<open>\<^verbatim>\<open>strings.HasPrefix(s, prefix)\<close>.\<close>

definition HasPrefix :: "string \<Rightarrow> string \<Rightarrow> bool" where
  "HasPrefix s p = (length p \<le> length s \<and> take (length p) s = p)"

text \<open>\<^verbatim>\<open>strings.Split(s, sep)\<close> for a one-byte separator: the pieces between the
  separators, \<open>[s]\<close> when there is none.\<close>

fun Split :: "string \<Rightarrow> char \<Rightarrow> string list" where
  "Split [] sep = [[]]"
| "Split (c # cs) sep =
     (if c = sep then [] # Split cs sep
      else (c # hd (Split cs sep)) # tl (Split cs sep))"

text \<open>\<^verbatim>\<open>strings.ReplaceAll(s, old, "")\<close> for a one-byte \<open>old\<close>.\<close>

definition ReplaceAll :: "string \<Rightarrow> char \<Rightarrow> string" where
  "ReplaceAll s old = filter (\<lambda>c. c \<noteq> old) s"

definition bytes_of_string :: "string \<Rightarrow> byte list" where
  "bytes_of_string s = map of_char s"

text \<open>\<^verbatim>\<open>encoding/hex\<close>: \<^verbatim>\<open>fromHexChar\<close> and \<^verbatim>\<open>DecodeString\<close>, which returns the bytes
  decoded before the error when the input is malformed.\<close>

definition fromHexChar :: "char \<Rightarrow> byte option" where
  "fromHexChar c =
     (let n = (of_char c :: nat) in
      if 48 \<le> n \<and> n \<le> 57 then Some (of_nat (n - 48))
      else if 97 \<le> n \<and> n \<le> 102 then Some (of_nat (n - 97 + 10))
      else if 65 \<le> n \<and> n \<le> 70 then Some (of_nat (n - 65 + 10))
      else None)"

fun hex_DecodeString :: "string \<Rightarrow> go_result" where
  "hex_DecodeString (p # q # rest) =
     (case fromHexChar p of
        None \<Rightarrow> ([], Some (ErrHexInvalidByte p))
      | Some a \<Rightarrow>
          (case fromHexChar q of
             None \<Rightarrow> ([], Some (ErrHexInvalidByte q))
           | Some b \<Rightarrow>
               (case hex_DecodeString rest of
                  (bs, err) \<Rightarrow> ((push_bit 4 a OR b) # bs, err))))"
| "hex_DecodeString [p] =
     (case fromHexChar p of
        None \<Rightarrow> ([], Some (ErrHexInvalidByte p))
      | Some a \<Rightarrow> ([], Some ErrHexLength))"
| "hex_DecodeString [] = ([], None)"

text \<open>
  \<^verbatim>\<open>math/big\<close>: \<^verbatim>\<open>(*Int).SetString(s, base)\<close> for a base from 2 to 36 reads an optional
  sign, then at least one digit of the base, and fails unless the whole string is read
  (\<^verbatim>\<open>_\<close> separates digits only for base 0). \<^verbatim>\<open>big.Int\<close> is \<^typ>\<open>int\<close>.
\<close>

definition digitVal :: "char \<Rightarrow> nat" where
  "digitVal ch =
     (let n = (of_char ch :: nat) in
      if 48 \<le> n \<and> n \<le> 57 then n - 48
      else if 97 \<le> n \<and> n \<le> 122 then n - 97 + 10
      else if 65 \<le> n \<and> n \<le> 90 then n - 65 + 10
      else 63)"

fun scanDigits :: "nat \<Rightarrow> nat \<Rightarrow> string \<Rightarrow> nat option" where
  "scanDigits b z [] = Some z"
| "scanDigits b z (ch # rest) =
     (if digitVal ch < b then scanDigits b (z * b + digitVal ch) rest else None)"

definition scanMantissa :: "nat \<Rightarrow> string \<Rightarrow> nat option" where
  "scanMantissa b s = (if s = [] then None else scanDigits b 0 s)"

definition SetString :: "string \<Rightarrow> nat \<Rightarrow> int option" where
  "SetString s b =
     (case s of
        [] \<Rightarrow> None
      | ch # rest \<Rightarrow>
          if ch = CHR ''-'' then map_option (\<lambda>n. - int n) (scanMantissa b rest)
          else if ch = CHR ''+'' then map_option int (scanMantissa b rest)
          else map_option int (scanMantissa b s))"

text \<open>\<^verbatim>\<open>(*Int).Bytes()\<close>: the absolute value, big-endian, without leading zero bytes.\<close>

fun natBytes :: "nat \<Rightarrow> byte list" where
  "natBytes n = (if n = 0 then [] else natBytes (n div 256) @ [of_nat (n mod 256)])"

declare natBytes.simps [simp del]

definition Bytes :: "int \<Rightarrow> byte list" where
  "Bytes x = natBytes (nat \<bar>x\<bar>)"

text \<open>\<^verbatim>\<open>(*Int).SetBytes(buf)\<close>: \<open>buf\<close> read as a big-endian unsigned integer.\<close>

definition SetBytes :: "byte list \<Rightarrow> int" where
  "SetBytes buf = int (foldl (\<lambda>z b. z * 256 + unat b) 0 buf)"

subsection \<open>The numeric codec (package twos-complement of the big-integer module)\<close>

text \<open>
  Modelled from the spec: the functions \<^verbatim>\<open>twos.ToBytes\<close>, \<^verbatim>\<open>twos.ToBytesOfLength\<close> and
  \<^verbatim>\<open>twos.CopyAlignRight\<close> belong to another module and are not among the sources.
  \<open>ToBytes\<close> is the minimal two's-complement representation (empty for zero),
  \<open>ToBytesOfLength\<close> extends it with the sign to exactly the width and fails when the
  minimal representation is longer, \<open>CopyAlignRight\<close> left-pads with zero bytes to the
  width (its only caller has checked that the source is not longer than the width).
\<close>

definition ToBytes :: "int \<Rightarrow> byte list" where
  "ToBytes i =
     (if i = 0 then []
      else if 0 < i then
        (let bs = Bytes i in if hd bs < 0x80 then bs else 0x00 # bs)
      else
        (let bs = map (\<lambda>b. NOT b) (Bytes (i + 1)) in
         if bs = [] \<or> hd bs < 0x80 then 0xFF # bs else bs))"

definition ToBytesOfLength :: "int \<Rightarrow> nat \<Rightarrow> go_result" where
  "ToBytesOfLength i bytesLength =
     (let m = ToBytes i in
      if bytesLength < length m then ([], Some ErrTwosDoesNotFit)
      else (replicate (bytesLength - length m) (if i < 0 then 0xFF else 0x00) @ m, None))"

definition CopyAlignRight :: "byte list \<Rightarrow> nat \<Rightarrow> byte list" where
  "CopyAlignRight source n = replicate (n - length source) 0x00 @ source"

subsection \<open>The interpreter\<close>

text \<open>
  The body of the two \<^verbatim>\<open>for\<close> loops that concatenate evaluations: \<open>acc\<close> is the
  variable \<^verbatim>\<open>concat\<close>, the list holds the evaluations of the items still to come, and
  the first one that is not a success ends the loop.
\<close>

fun concat_loop :: "byte list \<Rightarrow> go_result outcome list \<Rightarrow> go_result outcome" where
  "concat_loop acc [] = Returns (acc, None)"
| "concat_loop acc (Returns (v, None) # rest) = concat_loop (acc @ v) rest"
| "concat_loop acc (Returns (v, Some err) # rest) = Returns ([], Some err)"
| "concat_loop acc (Panics # rest) = Panics"

definition interpretUnsignedNumber :: "string \<Rightarrow> go_result" where
  "interpretUnsignedNumber strRaw =
     (let str = ReplaceAll (ReplaceAll strRaw (CHR ''_'')) (CHR '','') in
      if HasPrefix strRaw ''0x'' \<or> HasPrefix strRaw ''0X'' then
        (let str = drop 2 strRaw;
             str = (if length str mod 2 = 1 then CHR ''0'' # str else str)
         in hex_DecodeString str)
      else if HasPrefix strRaw ''0b'' \<or> HasPrefix strRaw ''0B'' then
        (case SetString (drop 2 str) 2 of
           None \<Rightarrow> ([], Some (ErrParseBinary strRaw))
         | Some result \<Rightarrow> (Bytes result, None))
      else
        (case SetString str 10 of
           None \<Rightarrow> ([], Some (ErrParseBase10 strRaw))
         | Some result \<Rightarrow> (Bytes result, None)))"

definition interpretUnsignedNumberFixedWidth :: "string \<Rightarrow> nat \<Rightarrow> go_result" where
  "interpretUnsignedNumberFixedWidth strRaw targetWidth =
     (case interpretUnsignedNumber strRaw of
        (numberBytes, Some err) \<Rightarrow> ([], Some err)
      | (numberBytes, None) \<Rightarrow>
          if targetWidth = 0 then (numberBytes, None)
          else if targetWidth < length numberBytes
          then ([], Some (ErrDoesNotFit strRaw targetWidth))
          else (CopyAlignRight numberBytes targetWidth, None))"

text \<open>\<^verbatim>\<open>strRaw[0]\<close> panics on the empty string.\<close>

definition interpretNumber :: "string \<Rightarrow> nat \<Rightarrow> go_result outcome" where
  "interpretNumber strRaw targetWidth =
     (case strRaw of
        [] \<Rightarrow> Panics
      | c # rest \<Rightarrow>
          if c = CHR ''-'' \<or> c = CHR ''+'' then
            (case interpretUnsignedNumber rest of
               (numberBytes, Some err) \<Rightarrow> Returns ([], Some err)
             | (numberBytes, None) \<Rightarrow>
                 (let number = SetBytes numberBytes;
                      number = (if c = CHR ''-'' then - number else number)
                  in if targetWidth = 0 then Returns (ToBytes number, None)
                     else Returns (ToBytesOfLength number targetWidth)))
          else if targetWidth = 0 then Returns (interpretUnsignedNumber strRaw)
          else Returns (interpretUnsignedNumberFixedWidth strRaw targetWidth))"

definition tryInterpretFixedWidth :: "string \<Rightarrow> (bool \<times> go_result) outcome" where
  "tryInterpretFixedWidth strRaw =
     (if HasPrefix strRaw u64Prefix then
        Returns (True, interpretUnsignedNumberFixedWidth (drop (length u64Prefix) strRaw) 8)
      else if HasPrefix strRaw u32Prefix then
        Returns (True, interpretUnsignedNumberFixedWidth (drop (length u32Prefix) strRaw) 4)
      else if HasPrefix strRaw u16Prefix then
        Returns (True, interpretUnsignedNumberFixedWidth (drop (length u16Prefix) strRaw) 2)
      else if HasPrefix strRaw u8Prefix then
        Returns (True, interpretUnsignedNumberFixedWidth (drop (length u8Prefix) strRaw) 1)
      else if HasPrefix strRaw i64Prefix then
        (case interpretNumber (drop (length i64Prefix) strRaw) 8 of
           Panics \<Rightarrow> Panics | Returns r \<Rightarrow> Returns (True, r))
      else if HasPrefix strRaw i32Prefix then
        (case interpretNumber (drop (length i32Prefix) strRaw) 4 of
           Panics \<Rightarrow> Panics | Returns r \<Rightarrow> Returns (True, r))
      else if HasPrefix strRaw i16Prefix then
        (case interpretNumber (drop (length i16Prefix) strRaw) 2 of
           Panics \<Rightarrow> Panics | Returns r \<Rightarrow> Returns (True, r))
      else if HasPrefix strRaw i8Prefix then
        (case interpretNumber (drop (length i8Prefix) strRaw) 1 of
           Panics \<Rightarrow> Panics | Returns r \<Rightarrow> Returns (True, r))
      else Returns (False, [], None))"

text \<open>The rules of \<^verbatim>\<open>InterpretString\<close> below the concatenation rule.\<close>

definition interpretSimple :: "package_functions \<Rightarrow> string \<Rightarrow> go_result outcome" where
  "interpretSimple fs strRaw =
     (if strRaw = ''false'' then Returns ([], None)
      else if strRaw = ''true'' then Returns ([0x01], None)
      else
        (case find (HasPrefix strRaw) strPrefixes of
           Some strPrefix \<Rightarrow> Returns (bytes_of_string (drop (length strPrefix) strRaw), None)
         | None \<Rightarrow>
             if HasPrefix strRaw addrPrefix then
               Returns (address fs (bytes_of_string (drop (length addrPrefix) strRaw)))
             else
               (case tryInterpretFixedWidth strRaw of
                  Panics \<Rightarrow> Panics
                | Returns (parsed, result, Some err) \<Rightarrow> Returns ([], Some err)
                | Returns (parsed, result, None) \<Rightarrow>
                    if parsed then Returns (result, None)
                    else interpretNumber strRaw 0)))"

function InterpretString ::
  "package_functions \<Rightarrow> ValueInterpreter \<Rightarrow> string \<Rightarrow> go_result outcome" where
  "InterpretString fs vi strRaw =
     (if length strRaw = 0 then Returns ([], None)
      else if HasPrefix strRaw filePrefix then
        (case FileResolver vi of
           None \<Rightarrow> Returns ([], Some ErrFileResolverNotProvided)
         | Some resolver \<Rightarrow>
             (case resolver (drop (length filePrefix) strRaw) of
                (fileContents, Some err) \<Rightarrow> Returns ([], Some err)
              | (fileContents, None) \<Rightarrow> Returns (fileContents, None)))
      else if HasPrefix strRaw keccak256Prefix then
        (case InterpretString fs vi (drop (length keccak256Prefix) strRaw) of
           Panics \<Rightarrow> Panics
         | Returns (arg, Some err) \<Rightarrow> Returns ([], Some (ErrKeccakArgument err))
         | Returns (arg, None) \<Rightarrow>
             (case keccak256 fs arg of
                (hash, Some err) \<Rightarrow> Returns ([], Some (ErrKeccakCompute err))
              | (hash, None) \<Rightarrow> Returns (hash, None)))
      else if 1 < length (Split strRaw (CHR ''|'')) then
        concat_loop [] (map (InterpretString fs vi) (Split strRaw (CHR ''|'')))
      else interpretSimple fs strRaw)"
  by pat_completeness auto
termination
proof (relation "measure (\<lambda>(fs, vi, strRaw). length strRaw)")
  show "wf (measure (\<lambda>(fs, vi, strRaw). length strRaw))"
    by simp
next
  fix fs :: package_functions and vi :: ValueInterpreter and strRaw :: string
  assume "length strRaw \<noteq> 0" and "HasPrefix strRaw keccak256Prefix"
  then show "((fs, vi, drop (length keccak256Prefix) strRaw), (fs, vi, strRaw))
      \<in> measure (\<lambda>(fs, vi, strRaw). length strRaw)"
    by (simp add: keccak256Prefix_def)
next
  fix fs :: package_functions and vi :: ValueInterpreter and strRaw part :: string
  assume many: "1 < length (Split strRaw (CHR ''|''))"
    and part: "part \<in> set (Split strRaw (CHR ''|''))"
  have total: "sum_list (map length (Split s sep)) + length (Split s sep) = Suc (length s)"
    for s :: string and sep
  proof (induction s)
    case Nil
    show ?case by simp
  next
    case (Cons c cs)
    have "Split cs sep \<noteq> []"
      by (cases cs) simp_all
    then obtain p ps where "Split cs sep = p # ps"
      by (cases "Split cs sep") simp_all
    with Cons show ?case by simp
  qed
  have "length part \<le> sum_list (map length (Split strRaw (CHR ''|'')))"
    using part by (simp add: member_le_sum_list)
  with total [of strRaw "CHR ''|''"] many have "length part < length strRaw"
    by linarith
  then show "((fs, vi, part), (fs, vi, strRaw)) \<in> measure (\<lambda>(fs, vi, strRaw). length strRaw)"
    by simp
qed

declare InterpretString.simps [simp del]

fun InterpretSubTree ::
  "package_functions \<Rightarrow> ValueInterpreter \<Rightarrow> 'k OJsonObject \<Rightarrow> go_result outcome" where
  "InterpretSubTree fs vi (OJsonString str) = InterpretString fs vi str"
| "InterpretSubTree fs vi (OJsonList list) =
     concat_loop [] (map (InterpretSubTree fs vi) list)"
| "InterpretSubTree fs vi (OJsonMap mp) =
     concat_loop [] (map (\<lambda>kvp. InterpretSubTree fs vi (snd kvp)) mp)"
| "InterpretSubTree fs vi OJsonOther = Returns ([], Some ErrCannotInterpretSubtree)"

subsection \<open>Reading outcomes, and collaborators for the examples\<close>

definition succeeded :: "go_result outcome \<Rightarrow> bool" where
  "succeeded r =
     (case r of Returns (v, None) \<Rightarrow> True | Returns (v, Some err) \<Rightarrow> False | Panics \<Rightarrow> False)"

definition failed :: "go_result outcome \<Rightarrow> bool" where
  "failed r =
     (case r of Returns (v, None) \<Rightarrow> False | Returns (v, Some err) \<Rightarrow> True | Panics \<Rightarrow> False)"

definition bytes_of :: "go_result outcome \<Rightarrow> byte list" where
  "bytes_of r = (case r of Returns (v, err) \<Rightarrow> v | Panics \<Rightarrow> [])"

text \<open>A resolver that knows the single file \<^verbatim>\<open>a\<close>, a stand-in for the digest (32 bytes that
  depend on the data) and for the address derivation.\<close>

definition example_resolver :: "string \<Rightarrow> go_result" where
  "example_resolver name =
     (if name = ''a'' then ([0x01], None) else ([], Some (ErrExternal name)))"

definition example_hash :: "byte list \<Rightarrow> go_result" where
  "example_hash data = (replicate 32 (of_nat (length data)), None)"

definition example_fs :: package_functions where
  "example_fs =
     \<lparr>keccak256 = example_hash, address = (\<lambda>name. (CopyAlignRight name 32, None))\<rparr>"

definition example_vi :: ValueInterpreter where
  "example_vi = \<lparr>FileResolver = Some example_resolver\<rparr>"

definition no_resolver_vi :: ValueInterpreter where
  "no_resolver_vi = \<lparr>FileResolver = None\<rparr>"

subsection \<open>Tables and measures used in the statements\<close>

text \<open>The fixed-width prefixes of \<^verbatim>\<open>tryInterpretFixedWidth\<close>: unsigned prefix, signed prefix
  and the width in bytes that both select.\<close>

definition fixedWidths :: "(string \<times> string \<times> nat) list" where
  "fixedWidths =
     [(u8Prefix, i8Prefix, 1), (u16Prefix, i16Prefix, 2),
      (u32Prefix, i32Prefix, 4), (u64Prefix, i64Prefix, 8)]"

text \<open>The two \<^verbatim>\<open>ReplaceAll\<close> calls at the head of \<^verbatim>\<open>interpretUnsignedNumber\<close>.\<close>

definition stripSeparators :: "string \<Rightarrow> string" where
  "stripSeparators s = ReplaceAll (ReplaceAll s (CHR ''_'')) (CHR '','')"

text \<open>The big-endian value of a byte sequence, continuing from \<open>z\<close>.\<close>

definition beValue :: "nat \<Rightarrow> byte list \<Rightarrow> nat" where
  "beValue z buf = foldl (\<lambda>z b. z * 256 + unat b) z buf"

section \<open>Properties\<close>

subsection \<open>Splitting and the concatenation loop\<close>

lemmas prefix_defs =
  HasPrefix_def filePrefix_def keccak256Prefix_def addrPrefix_def strPrefixes_def
  u64Prefix_def u32Prefix_def u16Prefix_def u8Prefix_def
  i64Prefix_def i32Prefix_def i16Prefix_def i8Prefix_def

lemmas number_defs =
  interpretNumber_def interpretUnsignedNumberFixedWidth_def interpretUnsignedNumber_def
  ReplaceAll_def SetString_def scanMantissa_def digitVal_def fromHexChar_def
  Bytes_def SetBytes_def natBytes.simps ToBytes_def ToBytesOfLength_def CopyAlignRight_def

lemmas example_defs =
  example_fs_def example_vi_def no_resolver_vi_def example_resolver_def example_hash_def
  succeeded_def failed_def bytes_of_def

lemma Split_no_sep: "sep \<notin> set s \<Longrightarrow> Split s sep = [s]"
  by (induction s) auto

lemma Split_not_Nil: "Split s sep \<noteq> []"
  by (cases s) simp_all

lemma Split_append: "Split (s1 @ sep # s2) sep = Split s1 sep @ Split s2 sep"
proof (induction s1)
  case Nil
  show ?case by simp
next
  case (Cons c cs)
  obtain p ps where "Split cs sep = p # ps"
    using Split_not_Nil [of cs sep] by (cases "Split cs sep") simp_all
  with Cons show ?case by simp
qed

lemma concat_loop_all:
  "list_all succeeded rs \<Longrightarrow>
   concat_loop acc rs = Returns (acc @ concat (map bytes_of rs), None)"
  by (induction acc rs rule: concat_loop.induct) (simp_all add: succeeded_def bytes_of_def)

lemma concat_loop_first_failure:
  "list_all succeeded rs \<Longrightarrow> \<not> succeeded r \<Longrightarrow>
   concat_loop acc (rs @ r # rest) =
     (case r of Returns (v, err) \<Rightarrow> Returns ([], err) | Panics \<Rightarrow> Panics)"
  by (induction acc rs rule: concat_loop.induct)
    (simp_all add: succeeded_def split: outcome.splits option.splits prod.splits)

lemma concat_loop_append:
  "concat_loop acc rs = Returns (v, None) \<Longrightarrow>
   concat_loop acc (rs @ rs') = concat_loop v rs'"
  by (induction acc rs rule: concat_loop.induct) simp_all

lemma concat_loop_shift:
  "concat_loop acc rs = Returns (v, None) \<Longrightarrow>
   concat_loop (acc' @ acc) rs = Returns (acc' @ v, None)"
  by (induction acc rs arbitrary: acc' rule: concat_loop.induct) (simp_all flip: append_assoc)

subsection \<open>Literals: empty string and booleans\<close>

text \<open>
  Claim C7. \<^verbatim>\<open>InterpretString\<close> maps the empty string to the empty byte sequence, the
  exact string \<^verbatim>\<open>false\<close> to the empty byte sequence (not to a single zero byte), and the
  exact string \<^verbatim>\<open>true\<close> to the single byte 0x01, whatever the collaborators are.
\<close>

theorem InterpretString_empty_false_true:
  "InterpretString fs vi '''' = Returns ([], None) \<and>
   InterpretString fs vi ''false'' = Returns ([], None) \<and>
   InterpretString fs vi ''true'' = Returns ([0x01], None)"
  by (simp add: InterpretString.simps prefix_defs interpretSimple_def)

theorem InterpretString_empty_false_true_witness:
  "InterpretString example_fs no_resolver_vi ''false'' \<noteq> Returns ([0x00], None) \<and>
   bytes_of (InterpretString example_fs no_resolver_vi ''true'') = [0x01]"
  using InterpretString_empty_false_true [of example_fs no_resolver_vi]
  by (simp add: bytes_of_def)

subsection \<open>File references\<close>

text \<open>
  Claim C2. For every string that starts with \<^verbatim>\<open>file:\<close>: without a file resolver
  \<^verbatim>\<open>InterpretString\<close> fails with the missing-resolver error; otherwise the whole remainder
  after the prefix, unmodified and never split at \<^verbatim>\<open>|\<close>, is passed to the resolver, whose
  bytes are the whole result and whose error is propagated.
\<close>

theorem InterpretString_file:
  "InterpretString fs vi (filePrefix @ name) =
     (case FileResolver vi of
        None \<Rightarrow> Returns ([], Some ErrFileResolverNotProvided)
      | Some resolver \<Rightarrow>
          (case resolver name of
             (contents, None) \<Rightarrow> Returns (contents, None)
           | (contents, Some err) \<Rightarrow> Returns ([], Some err)))"
  by (subst InterpretString.simps)
    (simp add: HasPrefix_def filePrefix_def split: option.splits prod.splits)

theorem InterpretString_file_witness:
  "InterpretString example_fs no_resolver_vi ''file:a|str:b'' =
     Returns ([], Some ErrFileResolverNotProvided) \<and>
   InterpretString example_fs example_vi ''file:a'' = Returns ([0x01], None) \<and>
   InterpretString example_fs example_vi ''file:a|str:b'' =
     Returns ([], Some (ErrExternal ''a|str:b''))"
  using InterpretString_file [of example_fs no_resolver_vi "''a|str:b''"]
    InterpretString_file [of example_fs example_vi "''a''"]
    InterpretString_file [of example_fs example_vi "''a|str:b''"]
  by (simp add: filePrefix_def example_defs)

subsection \<open>Hash references\<close>

lemma InterpretString_str_abc:
  "InterpretString fs vi ''str:abc'' = Returns ([0x61, 0x62, 0x63], None)"
  by (simp add: InterpretString.simps prefix_defs interpretSimple_def bytes_of_string_def)

lemma InterpretString_str_a_str_b:
  "InterpretString fs vi ''str:a|str:b'' = Returns ([0x61, 0x62], None)"
  by (simp add: InterpretString.simps prefix_defs interpretSimple_def bytes_of_string_def)

text \<open>
  The rule for \<^verbatim>\<open>keccak256:\<close>, by the outcome of the inner interpretation. The remainder is
  interpreted by \<^verbatim>\<open>InterpretString\<close> itself, as a full expression (the prefix is checked
  before the split at \<^verbatim>\<open>|\<close>, so the remainder may be a concatenation). When the inner
  interpretation returns, the result is the hash function applied to its bytes, or an
  error that wraps the inner error or the error of the hash; when it panics, so does the
  whole. \<^verbatim>\<open>keccak256:str:abc\<close> is the hash of the ASCII bytes of \<^verbatim>\<open>abc\<close>, and
  \<^verbatim>\<open>keccak256:str:a|str:b\<close> the hash of the bytes of \<^verbatim>\<open>ab\<close>.
\<close>

lemma InterpretString_keccak256_cases:
  "InterpretString fs vi (keccak256Prefix @ expr) =
     (case InterpretString fs vi expr of
        Panics \<Rightarrow> Panics
      | Returns (arg, Some err) \<Rightarrow> Returns ([], Some (ErrKeccakArgument err))
      | Returns (arg, None) \<Rightarrow>
          (case keccak256 fs arg of
             (hash, None) \<Rightarrow> Returns (hash, None)
           | (hash, Some err) \<Rightarrow> Returns ([], Some (ErrKeccakCompute err))))
   \<and> InterpretString fs vi ''keccak256:str:abc'' =
       (case keccak256 fs [0x61, 0x62, 0x63] of
          (hash, None) \<Rightarrow> Returns (hash, None)
        | (hash, Some err) \<Rightarrow> Returns ([], Some (ErrKeccakCompute err)))
   \<and> InterpretString fs vi ''keccak256:str:a|str:b'' =
       (case keccak256 fs [0x61, 0x62] of
          (hash, None) \<Rightarrow> Returns (hash, None)
        | (hash, Some err) \<Rightarrow> Returns ([], Some (ErrKeccakCompute err)))"
proof -
  have general: "InterpretString fs vi (keccak256Prefix @ e) =
     (case InterpretString fs vi e of
        Panics \<Rightarrow> Panics
      | Returns (arg, Some err) \<Rightarrow> Returns ([], Some (ErrKeccakArgument err))
      | Returns (arg, None) \<Rightarrow>
          (case keccak256 fs arg of
             (hash, None) \<Rightarrow> Returns (hash, None)
           | (hash, Some err) \<Rightarrow> Returns ([], Some (ErrKeccakCompute err))))" for e
    by (subst InterpretString.simps)
      (simp add: HasPrefix_def filePrefix_def keccak256Prefix_def
        split: option.splits prod.splits outcome.splits)
  have abc: "''keccak256:str:abc'' = keccak256Prefix @ ''str:abc''"
    and ab: "''keccak256:str:a|str:b'' = keccak256Prefix @ ''str:a|str:b''"
    by (simp_all add: keccak256Prefix_def)
  show ?thesis
    unfolding abc ab general InterpretString_str_abc InterpretString_str_a_str_b
    by simp
qed

lemma InterpretString_keccak256_cases_example:
  "InterpretString example_fs example_vi ''keccak256:str:abc'' =
     Returns (replicate 32 0x03, None) \<and>
   InterpretString example_fs example_vi ''keccak256:file:b'' =
     Returns ([], Some (ErrKeccakArgument (ErrExternal ''b'')))"
proof -
  have "InterpretString example_fs example_vi ''file:b'' = Returns ([], Some (ErrExternal ''b''))"
    by (simp add: InterpretString.simps prefix_defs example_defs)
  then show ?thesis
    using InterpretString_keccak256_cases [of example_fs example_vi "''file:b''"]
    by (simp add: keccak256Prefix_def example_defs)
qed

text \<open>
  Claim C5 says that for every string that starts with \<^verbatim>\<open>keccak256:\<close> the result is the hash
  of the bytes of the recursively interpreted remainder, and that a failure of the inner
  interpretation or of the hash is reported as an error with context. The code does so
  whenever the inner interpretation returns (the lemma above), but not for every input: a
  signed fixed-width prefix with an empty remainder makes \<^verbatim>\<open>interpretNumber\<close> read
  \<^verbatim>\<open>strRaw[0]\<close> of the empty string, which panics, and the panic passes through the
  \<^verbatim>\<open>keccak256:\<close> rule. So \<^verbatim>\<open>keccak256:i8:\<close> gives no error value at all, while its unsigned
  sibling \<^verbatim>\<open>keccak256:u8:\<close> reports the parse error of the empty number, wrapped with the
  context of the rule. The evaluation below shows both.
\<close>

theorem InterpretString_keccak256_panic:
  "InterpretString fs vi ''keccak256:i8:'' = Panics \<and>
   InterpretString fs vi ''i8:'' = Panics \<and>
   InterpretString fs vi ''keccak256:u8:'' =
     Returns ([], Some (ErrKeccakArgument (ErrParseBase10 [])))"
  by (simp add: InterpretString.simps interpretSimple_def tryInterpretFixedWidth_def prefix_defs
      number_defs)

subsection \<open>Trees\<close>

text \<open>
  Claim C6. For every list of pairs, \<^verbatim>\<open>InterpretSubTree\<close> of the map with these pairs
  returns exactly what it returns for the list of the pairs' values in the same order: the
  keys have no influence. Both concatenate the evaluations of the elements in order (all
  elements succeeding gives the concatenation of their bytes) and stop at the first element
  that fails, with its error and no bytes.
\<close>

theorem InterpretSubTree_map_is_list_of_values:
  "InterpretSubTree fs vi (OJsonMap mp) = InterpretSubTree fs vi (OJsonList (map snd mp))
   \<and> (list_all (\<lambda>v. succeeded (InterpretSubTree fs vi v)) vs \<longrightarrow>
        InterpretSubTree fs vi (OJsonList vs) =
          Returns (concat (map (\<lambda>v. bytes_of (InterpretSubTree fs vi v)) vs), None))
   \<and> (list_all (\<lambda>v. succeeded (InterpretSubTree fs vi v)) vs \<and>
        InterpretSubTree fs vi v = Returns (bs, Some err) \<longrightarrow>
        InterpretSubTree fs vi (OJsonList (vs @ v # rest)) = Returns ([], Some err))"
proof (intro conjI impI)
  show "InterpretSubTree fs vi (OJsonMap mp) = InterpretSubTree fs vi (OJsonList (map snd mp))"
    by (simp add: comp_def)
next
  assume "list_all (\<lambda>v. succeeded (InterpretSubTree fs vi v)) vs"
  then have "list_all succeeded (map (InterpretSubTree fs vi) vs)"
    by (simp add: list_all_iff)
  from concat_loop_all [OF this, of "[]"]
  show "InterpretSubTree fs vi (OJsonList vs) =
      Returns (concat (map (\<lambda>v. bytes_of (InterpretSubTree fs vi v)) vs), None)"
    by (simp add: comp_def)
next
  assume a: "list_all (\<lambda>v. succeeded (InterpretSubTree fs vi v)) vs \<and>
    InterpretSubTree fs vi v = Returns (bs, Some err)"
  then have ok: "list_all succeeded (map (InterpretSubTree fs vi) vs)"
    by (simp add: list_all_iff)
  from a have bad: "\<not> succeeded (InterpretSubTree fs vi v)"
    by (simp add: succeeded_def)
  from concat_loop_first_failure [OF ok bad, of "[]" "map (InterpretSubTree fs vi) rest"] a
  show "InterpretSubTree fs vi (OJsonList (vs @ v # rest)) = Returns ([], Some err)"
    by simp
qed

theorem InterpretSubTree_map_is_list_of_values_witness:
  "InterpretSubTree example_fs example_vi
     (OJsonMap [(''first'', OJsonString ''str:abc''), (''second'', OJsonString ''true'')]) =
     Returns ([0x61, 0x62, 0x63, 0x01], None) \<and>
   InterpretSubTree example_fs example_vi
     (OJsonList [OJsonString ''str:abc'', OJsonString ''true'']) =
     Returns ([0x61, 0x62, 0x63, 0x01], None) \<and>
   InterpretSubTree example_fs example_vi
     (OJsonList [OJsonString ''true'', OJsonOther, OJsonString ''str:abc'']) =
     Returns ([], Some ErrCannotInterpretSubtree)"
proof -
  let ?a = "OJsonString ''str:abc'' :: string OJsonObject"
  let ?t = "OJsonString ''true'' :: string OJsonObject"
  have a: "InterpretSubTree example_fs example_vi ?a = Returns ([0x61, 0x62, 0x63], None)"
    by (simp add: InterpretString_str_abc)
  have t: "InterpretSubTree example_fs example_vi ?t = Returns ([0x01], None)"
    by (simp add: InterpretString.simps prefix_defs interpretSimple_def)
  have o: "InterpretSubTree example_fs example_vi (OJsonOther :: string OJsonObject) =
      Returns ([], Some ErrCannotInterpretSubtree)"
    by simp
  show ?thesis
    using InterpretSubTree_map_is_list_of_values
      [of example_fs example_vi "[(''first'', ?a), (''second'', ?t)]" "[?a, ?t]"]
      InterpretSubTree_map_is_list_of_values
      [of example_fs example_vi "[]" "[?t]" OJsonOther "[]" ErrCannotInterpretSubtree "[?a]"]
    unfolding list.map snd_conv list.pred_inject a t o append.simps
    by (simp add: succeeded_def bytes_of_def)
qed

subsection \<open>Numbers: reaching the numeric rules\<close>

lemma InterpretString_simple:
  "strRaw \<noteq> [] \<Longrightarrow> \<not> HasPrefix strRaw filePrefix \<Longrightarrow> \<not> HasPrefix strRaw keccak256Prefix \<Longrightarrow>
   CHR ''|'' \<notin> set strRaw \<Longrightarrow> InterpretString fs vi strRaw = interpretSimple fs strRaw"
  by (subst InterpretString.simps) (simp add: Split_no_sep)

lemma interpretUnsignedNumberFixedWidth_error:
  "interpretUnsignedNumberFixedWidth r w = (bs, Some err) \<Longrightarrow> bs = []"
  by (auto simp: interpretUnsignedNumberFixedWidth_def split: prod.splits option.splits if_splits)



lemma tryInterpretFixedWidth_unsigned:
  "tryInterpretFixedWidth (''u8:'' @ r) = Returns (True, interpretUnsignedNumberFixedWidth r 1)"
  "tryInterpretFixedWidth (''u16:'' @ r) = Returns (True, interpretUnsignedNumberFixedWidth r 2)"
  "tryInterpretFixedWidth (''u32:'' @ r) = Returns (True, interpretUnsignedNumberFixedWidth r 4)"
  "tryInterpretFixedWidth (''u64:'' @ r) = Returns (True, interpretUnsignedNumberFixedWidth r 8)"
  by (simp_all add: tryInterpretFixedWidth_def prefix_defs)


lemma tryInterpretFixedWidth_other:
  "c \<noteq> CHR ''u'' \<Longrightarrow> c \<noteq> CHR ''i'' \<Longrightarrow> tryInterpretFixedWidth (c # r) = Returns (False, [], None)"
  by (simp add: tryInterpretFixedWidth_def prefix_defs)

lemma interpretSimple_number:
  assumes "c \<notin> set [CHR ''f'', CHR ''t'', CHR ''s'', CHR 0x60, CHR 0x27, CHR ''a'']"
  shows "interpretSimple fs (c # rest) =
     (case tryInterpretFixedWidth (c # rest) of
        Panics \<Rightarrow> Panics
      | Returns (parsed, result, Some err) \<Rightarrow> Returns ([], Some err)
      | Returns (parsed, result, None) \<Rightarrow>
          if parsed then Returns (result, None) else interpretNumber (c # rest) 0)"
  using assms by (simp add: interpretSimple_def prefix_defs)

lemma InterpretString_number:
  assumes "c \<notin> set [CHR ''f'', CHR ''k'', CHR ''t'', CHR ''s'', CHR 0x60, CHR 0x27, CHR ''a'']"
    and "CHR ''|'' \<notin> set (c # rest)"
  shows "InterpretString fs vi (c # rest) =
     (case tryInterpretFixedWidth (c # rest) of
        Panics \<Rightarrow> Panics
      | Returns (parsed, result, Some err) \<Rightarrow> Returns ([], Some err)
      | Returns (parsed, result, None) \<Rightarrow>
          if parsed then Returns (result, None) else interpretNumber (c # rest) 0)"
proof -
  have "InterpretString fs vi (c # rest) = interpretSimple fs (c # rest)"
    using assms by (intro InterpretString_simple) (simp_all add: prefix_defs)
  with assms(1) show ?thesis
    by (simp add: interpretSimple_number)
qed

lemma InterpretString_general_number:
  assumes "c \<notin> set [CHR ''f'', CHR ''k'', CHR ''t'', CHR ''s'', CHR 0x60, CHR 0x27, CHR ''a'',
      CHR ''u'', CHR ''i'', CHR ''-'', CHR ''+'']"
    and "CHR ''|'' \<notin> set (c # rest)"
  shows "InterpretString fs vi (c # rest) = Returns (interpretUnsignedNumber (c # rest))"
proof -
  have "InterpretString fs vi (c # rest) = interpretNumber (c # rest) 0"
    using assms by (subst InterpretString_number) (simp_all add: tryInterpretFixedWidth_other)
  also have "\<dots> = Returns (interpretUnsignedNumber (c # rest))"
    using assms(1) by (simp add: interpretNumber_def)
  finally show ?thesis .
qed

lemma InterpretString_fixed:
  assumes "c = CHR ''u'' \<or> c = CHR ''i''" "CHR ''|'' \<notin> set (c # rest)"
    and "tryInterpretFixedWidth (c # rest) = Returns (True, bs, err)"
    and "\<And>e. err = Some e \<Longrightarrow> bs = []"
  shows "InterpretString fs vi (c # rest) = Returns (bs, err)"
proof -
  from assms(1) have "c \<notin> set [CHR ''f'', CHR ''k'', CHR ''t'', CHR ''s'', CHR 0x60, CHR 0x27, CHR ''a'']"
    by (elim disjE) simp_all
  from InterpretString_number [OF this assms(2)] assms(3,4) show ?thesis
    by (cases err) simp_all
qed

lemma InterpretString_unsigned:
  assumes "(p, ip, w) \<in> set fixedWidths" and "CHR ''|'' \<notin> set r"
  shows "InterpretString fs vi (p @ r) = Returns (interpretUnsignedNumberFixedWidth r w)"
proof -
  obtain bs err where res: "interpretUnsignedNumberFixedWidth r w = (bs, err)"
    by (cases "interpretUnsignedNumberFixedWidth r w")
  have bs: "bs = []" if "err = Some e" for e
    using res that interpretUnsignedNumberFixedWidth_error by simp
  have pw: "p = ''u8:'' \<and> w = 1 \<or> p = ''u16:'' \<and> w = 2 \<or> p = ''u32:'' \<and> w = 4 \<or> p = ''u64:'' \<and> w = 8"
    using assms(1) by (auto simp add: fixedWidths_def prefix_defs)
  then obtain rest where p: "p = CHR ''u'' # rest" "CHR ''|'' \<notin> set rest"
    by (elim disjE conjE) simp_all
  have "tryInterpretFixedWidth (p @ r) = Returns (True, bs, err)"
    using pw res by (elim disjE conjE) (simp_all only: tryInterpretFixedWidth_unsigned)
  with p assms(2) bs show ?thesis
    by (simp add: InterpretString_fixed res)
qed


lemmas eval_defs = InterpretString.simps interpretSimple_def tryInterpretFixedWidth_def prefix_defs number_defs

subsection \<open>Numbers: digits, separators and the three bases\<close>

lemma scanDigits_chars: "scanDigits b z ds = Some n \<Longrightarrow> c \<in> set ds \<Longrightarrow> digitVal c < b"
  by (induction ds arbitrary: z) (auto split: if_splits)

lemma digitVal_not_separator:
  "digitVal c < 16 \<Longrightarrow> c \<noteq> CHR ''|'' \<and> c \<noteq> CHR ''_'' \<and> c \<noteq> CHR '',''"
  by (auto simp: digitVal_def)

lemma scanDigits_no_separator:
  assumes "scanDigits b z ds = Some n" "b \<le> 16"
  shows "CHR ''|'' \<notin> set ds \<and> CHR ''_'' \<notin> set ds \<and> CHR '','' \<notin> set ds"
proof -
  have "digitVal c < 16" if "c \<in> set ds" for c
    using scanDigits_chars [OF assms(1) that] assms(2) by simp
  then show ?thesis
    using digitVal_not_separator by blast
qed

lemma stripSeparators_id:
  "CHR ''_'' \<notin> set s \<Longrightarrow> CHR '','' \<notin> set s \<Longrightarrow> stripSeparators s = s"
  by (auto simp: stripSeparators_def ReplaceAll_def filter_id_conv)

lemma interpretUnsignedNumber_binary:
  "interpretUnsignedNumber (CHR ''0'' # c # r) =
     (case SetString (stripSeparators r) 2 of
        None \<Rightarrow> ([], Some (ErrParseBinary (CHR ''0'' # c # r)))
      | Some x \<Rightarrow> (Bytes x, None))" if "c = CHR ''b'' \<or> c = CHR ''B''"
  using that by (auto simp: interpretUnsignedNumber_def HasPrefix_def stripSeparators_def ReplaceAll_def)

lemma interpretUnsignedNumber_hex:
  "interpretUnsignedNumber (CHR ''0'' # c # r) =
     hex_DecodeString (if length r mod 2 = 1 then CHR ''0'' # r else r)" if "c = CHR ''x'' \<or> c = CHR ''X''"
  using that by (auto simp: interpretUnsignedNumber_def HasPrefix_def)

lemma stripSeparators_Cons:
  "c \<noteq> CHR ''_'' \<Longrightarrow> c \<noteq> CHR '','' \<Longrightarrow> stripSeparators (c # s) = c # stripSeparators s"
  by (simp add: stripSeparators_def ReplaceAll_def)

lemma interpretUnsignedNumber_base10:
  assumes "\<not> HasPrefix s ''0x''" "\<not> HasPrefix s ''0X''" "\<not> HasPrefix s ''0b''" "\<not> HasPrefix s ''0B''"
  shows "interpretUnsignedNumber s =
     (case SetString (stripSeparators s) 10 of
        None \<Rightarrow> ([], Some (ErrParseBase10 s))
      | Some x \<Rightarrow> (Bytes x, None))"
  using assms by (simp add: interpretUnsignedNumber_def stripSeparators_def)

lemma hex_DecodeString_invalid:
  "c \<in> set s \<Longrightarrow> fromHexChar c = None \<Longrightarrow> snd (hex_DecodeString s) \<noteq> None"
  by (induction s rule: hex_DecodeString.induct) (auto split: option.splits prod.splits)

lemma fromHexChar_separator: "fromHexChar (CHR ''_'') = None" "fromHexChar (CHR '','') = None"
  by (simp_all add: fromHexChar_def)

lemma interpretUnsignedNumber_minus:
  assumes "scanDigits 10 0 (stripSeparators ds) = Some n" "stripSeparators ds \<noteq> []"
  shows "interpretUnsignedNumber (CHR ''-'' # ds) = (natBytes n, None)"
proof -
  have "interpretUnsignedNumber (CHR ''-'' # ds) =
     (case SetString (stripSeparators (CHR ''-'' # ds)) 10 of
        None \<Rightarrow> ([], Some (ErrParseBase10 (CHR ''-'' # ds)))
      | Some x \<Rightarrow> (Bytes x, None))"
    by (intro interpretUnsignedNumber_base10) (simp_all add: HasPrefix_def)
  with assms show ?thesis
    by (simp add: stripSeparators_Cons SetString_def scanMantissa_def Bytes_def)
qed

subsection \<open>Numbers: the value of decoded hexadecimal digits\<close>

lemma fromHexChar_digitVal: "digitVal c < 16 \<Longrightarrow> fromHexChar c = Some (of_nat (digitVal c))"
  by (auto simp: digitVal_def fromHexChar_def Let_def split: if_splits)

lemma byte_of_nibbles:
  assumes "a < 16" "b < 16"
  shows "unat (push_bit 4 (of_nat a :: byte) OR of_nat b) = a * 16 + b"
proof -
  have b: "take_bit 4 b = b"
    using assms(2) by (simp add: take_bit_nat_eq_self)
  have "push_bit 4 a AND take_bit 4 b = 0"
    by (rule bit_eqI) (auto simp: bit_simps)
  then have "push_bit 4 a + b = push_bit 4 a OR b"
    unfolding b by (rule disjunctive_add_eq_or)
  then have "(of_nat (push_bit 4 a OR b) :: byte) = of_nat (a * 16 + b)"
    by (simp add: push_bit_eq_mult)
  then have w: "push_bit 4 (of_nat a :: byte) OR of_nat b = of_nat (a * 16 + b)"
    by (simp only: of_nat_or_eq of_nat_push_bit)
  have "a * 16 + b < 2 ^ LENGTH(8)"
    using assms by simp
  then have "unat (of_nat (a * 16 + b) :: byte) = a * 16 + b"
    by (simp only: unat_of_nat mod_less)
  with w show ?thesis
    by (simp only:)
qed

lemma hex_DecodeString_value:
  "even (length s) \<Longrightarrow> scanDigits 16 z s = Some n \<Longrightarrow>
   (\<exists>bs. hex_DecodeString s = (bs, None) \<and> length bs = length s div 2 \<and> beValue z bs = n)"
proof (induction s arbitrary: z rule: hex_DecodeString.induct)
  case (1 p q rest)
  from "1.prems"(2) have p: "digitVal p < 16" and q: "digitVal q < 16"
    and rest: "scanDigits 16 ((z * 16 + digitVal p) * 16 + digitVal q) rest = Some n"
    by (auto split: if_splits)
  from "1.prems"(1) have "even (length rest)" by simp
  from "1.IH" [OF fromHexChar_digitVal [OF p] fromHexChar_digitVal [OF q] this rest]
  obtain bs where bs: "hex_DecodeString rest = (bs, None)" "length bs = length rest div 2"
    "beValue ((z * 16 + digitVal p) * 16 + digitVal q) bs = n"
    by blast
  let ?b = "push_bit 4 (of_nat (digitVal p) :: byte) OR of_nat (digitVal q)"
  have dec: "hex_DecodeString (p # q # rest) = (?b # bs, None)"
    by (simp add: fromHexChar_digitVal [OF p] fromHexChar_digitVal [OF q] bs(1))
  have "z * 256 + unat ?b = (z * 16 + digitVal p) * 16 + digitVal q"
    by (simp add: byte_of_nibbles [OF p q] algebra_simps)
  then have "beValue z (?b # bs) = beValue ((z * 16 + digitVal p) * 16 + digitVal q) bs"
    by (simp only: beValue_def foldl_Cons)
  with bs(2,3) dec show ?case
    by simp
next
  case (2 p)
  then show ?case by simp
next
  case 3
  then show ?case by (simp add: beValue_def)
qed

lemma beValue_snoc: "beValue z (bs @ [b]) = beValue z bs * 256 + unat b"
  by (simp add: beValue_def)

lemma beValue_pos: "bs \<noteq> [] \<Longrightarrow> hd bs \<noteq> 0 \<Longrightarrow> 0 < beValue 0 bs"
proof (induction bs rule: rev_induct)
  case Nil
  then show ?case by simp
next
  case (snoc b bs)
  show ?case
  proof (cases "bs = []")
    case True
    with snoc.prems show ?thesis
      by (simp add: beValue_def unat_gt_0)
  next
    case False
    with snoc show ?thesis
      by (simp add: beValue_snoc)
  qed
qed

lemma natBytes_beValue:
  "bs = [] \<or> hd bs \<noteq> 0 \<Longrightarrow> natBytes (beValue 0 bs) = bs"
proof (induction bs rule: rev_induct)
  case Nil
  show ?case by (simp add: beValue_def natBytes.simps)
next
  case (snoc b bs)
  let ?n = "beValue 0 bs * 256 + unat b"
  from snoc.prems have "0 < beValue 0 (bs @ [b])"
    by (intro beValue_pos) simp_all
  then have pos: "?n \<noteq> 0"
    by (simp add: beValue_snoc)
  have "unat b < 256"
    using unsigned_less [of b] by simp
  then have dm: "?n div 256 = beValue 0 bs" "?n mod 256 = unat b"
    by simp_all
  from snoc.prems have "bs = [] \<or> hd bs \<noteq> 0"
    by (cases bs) simp_all
  with snoc.IH have "natBytes (beValue 0 bs) = bs" .
  with pos dm show ?case
    by (subst beValue_snoc, subst natBytes.simps) (simp del: natBytes.simps)
qed

lemma natBytes_no_leading_zero: "natBytes n = [] \<or> hd (natBytes n) \<noteq> 0"
proof (induction n rule: natBytes.induct)
  case (1 n)
  show ?case
  proof (cases "n = 0")
    case True
    then show ?thesis by (simp add: natBytes.simps)
  next
    case False
    show ?thesis
    proof (cases "n div 256 = 0")
      case True
      with False have "n < 256" "0 < n" by simp_all
      then have "unat (of_nat n :: byte) \<noteq> 0"
        by (simp add: unat_of_nat)
      then have "(of_nat n :: byte) \<noteq> 0"
        by (simp only: unat_eq_zero not_False_eq_True)
      with True False show ?thesis
        by (subst (1 2) natBytes.simps) (simp add: natBytes.simps [of 0])
    next
      case nz: False
      then have "natBytes (n div 256) \<noteq> []"
        by (subst natBytes.simps) simp
      with "1.IH" [OF False] False show ?thesis
        by (subst (1 2) natBytes.simps) simp
    qed
  qed
qed

subsection \<open>Concatenation\<close>

lemma Split_step:
  "Split (c # cs) sep =
     (case Split cs sep of
        p # ps \<Rightarrow> if c = sep then [] # p # ps else (c # p) # ps)"
  using Split_not_Nil [of cs sep] by (cases "Split cs sep") simp_all

lemma Split_many: "sep \<in> set s \<Longrightarrow> 1 < length (Split s sep)"
proof (induction s)
  case Nil
  then show ?case by simp
next
  case (Cons c cs)
  then show ?case
    using Split_not_Nil [of cs sep] by (cases "Split cs sep") auto
qed

lemma HasPrefix_before_separator:
  assumes "sep \<notin> set p"
  shows "HasPrefix (e1 @ sep # e2) p = HasPrefix e1 p"
proof (cases "length p \<le> length e1")
  case True
  then show ?thesis by (simp add: HasPrefix_def)
next
  case False
  then have "sep \<in> set (take (length p) (e1 @ sep # e2))"
    by (cases "length p - length e1") auto
  with assms have "take (length p) (e1 @ sep # e2) \<noteq> p"
    by metis
  with False show ?thesis
    by (simp add: HasPrefix_def)
qed

lemma concat_loop_parts:
  assumes "InterpretString fs vi e = Returns (b, None)"
    and "CHR ''|'' \<notin> set e \<or> \<not> HasPrefix e filePrefix \<and> \<not> HasPrefix e keccak256Prefix"
  shows "concat_loop [] (map (InterpretString fs vi) (Split e (CHR ''|''))) = Returns (b, None)"
proof (cases "CHR ''|'' \<in> set e")
  case False
  with assms(1) show ?thesis
    by (simp add: Split_no_sep)
next
  case True
  with assms(2) have "\<not> HasPrefix e filePrefix" "\<not> HasPrefix e keccak256Prefix" "e \<noteq> []"
    by auto
  with Split_many [OF True] assms(1) show ?thesis
    by (subst (asm) InterpretString.simps) simp
qed

text \<open>
  Claim C1, amended. Let \<open>e1\<close> and \<open>e2\<close> be interpreted successfully, \<open>e1\<close> not starting with
  \<^verbatim>\<open>file:\<close> or \<^verbatim>\<open>keccak256:\<close>, and \<open>e2\<close> either without \<^verbatim>\<open>|\<close> or not starting with one of
  these two prefixes. Then interpreting \<open>e1\<close>, the separator \<^verbatim>\<open>|\<close> and \<open>e2\<close> joined gives the
  bytes of \<open>e1\<close> followed by the bytes of \<open>e2\<close>; the empty string, on either side, is an
  identity.

  The claim as first stated (for all valid expressions) does not hold, because the two
  prefixes are checked before the split: \<^verbatim>\<open>file:a|str:b\<close> passes \<^verbatim>\<open>a|str:b\<close> to the resolver,
  and a \<^verbatim>\<open>keccak256:\<close> expression that holds a \<^verbatim>\<open>|\<close> is hashed as a whole on its own but cut
  at the \<^verbatim>\<open>|\<close> once it stands to the right of another part.
\<close>

theorem InterpretString_concatenation:
  assumes "InterpretString fs vi e1 = Returns (b1, None)"
    and "InterpretString fs vi e2 = Returns (b2, None)"
    and "\<not> HasPrefix e1 filePrefix" and "\<not> HasPrefix e1 keccak256Prefix"
    and "CHR ''|'' \<notin> set e2 \<or> \<not> HasPrefix e2 filePrefix \<and> \<not> HasPrefix e2 keccak256Prefix"
  shows "InterpretString fs vi (e1 @ ''|'' @ e2) = Returns (b1 @ b2, None)"
proof -
  let ?s = "e1 @ CHR ''|'' # e2"
  let ?eval = "map (InterpretString fs vi)"
  have parts1: "concat_loop [] (?eval (Split e1 (CHR ''|''))) = Returns (b1, None)"
    using assms(1,3,4) by (intro concat_loop_parts) simp_all
  have parts2: "concat_loop [] (?eval (Split e2 (CHR ''|''))) = Returns (b2, None)"
    using assms(2,5) by (intro concat_loop_parts) simp_all
  have "\<not> HasPrefix ?s filePrefix" "\<not> HasPrefix ?s keccak256Prefix"
    using assms(3,4)
    by (simp_all add: HasPrefix_before_separator filePrefix_def keccak256Prefix_def)
  moreover have "1 < length (Split ?s (CHR ''|''))"
    by (intro Split_many) simp
  ultimately have "InterpretString fs vi ?s = concat_loop [] (?eval (Split ?s (CHR ''|'')))"
    by (subst InterpretString.simps) simp
  also have "\<dots> = concat_loop [] (?eval (Split e1 (CHR ''|'')) @ ?eval (Split e2 (CHR ''|'')))"
    by (simp add: Split_append)
  also have "\<dots> = concat_loop b1 (?eval (Split e2 (CHR ''|'')))"
    using parts1 by (rule concat_loop_append)
  also have "\<dots> = Returns (b1 @ b2, None)"
    using concat_loop_shift [OF parts2, of b1] by simp
  finally show ?thesis by simp
qed

theorem InterpretString_concatenation_witness:
  "InterpretString example_fs example_vi ''str:abc|keccak256:str:a'' =
     Returns ([0x61, 0x62, 0x63] @ replicate 32 0x01, None) \<and>
   InterpretString example_fs example_vi ''|str:abc'' = Returns ([0x61, 0x62, 0x63], None) \<and>
   InterpretString example_fs example_vi ''str:abc|'' = Returns ([0x61, 0x62, 0x63], None)"
proof -
  have k: "InterpretString example_fs example_vi ''keccak256:str:a'' =
      Returns (replicate 32 0x01, None)"
    by (simp add: InterpretString.simps interpretSimple_def prefix_defs bytes_of_string_def
        example_defs)
  have e: "InterpretString example_fs example_vi [] = Returns ([], None)"
    by (simp add: InterpretString.simps)
  have abc: "\<not> HasPrefix ''str:abc'' filePrefix" "\<not> HasPrefix ''str:abc'' keccak256Prefix"
    and emp: "\<not> HasPrefix [] filePrefix" "\<not> HasPrefix [] keccak256Prefix"
    by (simp_all add: prefix_defs)
  have bar: "CHR ''|'' \<notin> set ''str:abc'' \<or>
      \<not> HasPrefix ''str:abc'' filePrefix \<and> \<not> HasPrefix ''str:abc'' keccak256Prefix"
    "CHR ''|'' \<notin> set [] \<or> \<not> HasPrefix [] filePrefix \<and> \<not> HasPrefix [] keccak256Prefix"
    "CHR ''|'' \<notin> set ''keccak256:str:a'' \<or>
      \<not> HasPrefix ''keccak256:str:a'' filePrefix \<and>
      \<not> HasPrefix ''keccak256:str:a'' keccak256Prefix"
    by simp_all
  show ?thesis
    using InterpretString_concatenation [OF InterpretString_str_abc k abc bar(3)]
      InterpretString_concatenation [OF e InterpretString_str_abc emp bar(1)]
      InterpretString_concatenation [OF InterpretString_str_abc e abc bar(2)]
    by simp
qed

theorem InterpretString_concatenation_counterexample:
  "InterpretString example_fs example_vi ''file:a'' = Returns ([0x01], None) \<and>
   InterpretString example_fs example_vi ''str:b'' = Returns ([0x62], None) \<and>
   InterpretString example_fs example_vi (''file:a'' @ ''|'' @ ''str:b'') =
     Returns ([], Some (ErrExternal ''a|str:b'')) \<and>
   InterpretString example_fs example_vi ''str:a'' = Returns ([0x61], None) \<and>
   InterpretString example_fs example_vi ''keccak256:str:b|str:c'' =
     Returns (replicate 32 0x02, None) \<and>
   InterpretString example_fs example_vi (''str:a'' @ ''|'' @ ''keccak256:str:b|str:c'') =
     Returns ([0x61] @ replicate 32 0x01 @ [0x63], None) \<and>
   InterpretString example_fs example_vi (''file:a'' @ ''|'' @ ''str:b'') \<noteq>
     Returns ([0x01] @ [0x62], None) \<and>
   InterpretString example_fs example_vi (''str:a'' @ ''|'' @ ''keccak256:str:b|str:c'') \<noteq>
     Returns ([0x61] @ replicate 32 0x02, None)"
proof -
  have "length (replicate 32 (0x01 :: byte) @ [0x63]) \<noteq> length (replicate 32 (0x02 :: byte))"
    by simp
  then have "replicate 32 (0x01 :: byte) @ [0x63] \<noteq> replicate 32 0x02"
    by metis
  then show ?thesis
    by (simp add: InterpretString.simps interpretSimple_def prefix_defs bytes_of_string_def
        example_defs Split_step del: Split.simps(2))
qed

subsection \<open>Numeric literals\<close>

text \<open>
  Claim C3, amended. For every literal \<^verbatim>\<open>0x\<close> or \<^verbatim>\<open>0X\<close> followed by hexadecimal digits that
  denote \<open>n\<close>, \<^verbatim>\<open>InterpretString\<close> returns the direct decoding of the digits, after one zero
  nibble is prepended when their number is odd: half as many bytes as digits (rounded up),
  whose big-endian value is \<open>n\<close>. Leading zero bytes that the literal writes are kept, so
  the result is the minimal encoding of \<open>n\<close> exactly when it is empty or its first byte is
  not zero. \<^verbatim>\<open>0x0005\<close> gives 00 05 and \<^verbatim>\<open>0xFF\<close> gives FF.

  The claim as first stated (the result is always the minimal encoding, without a leading
  zero byte) does not hold: \<^verbatim>\<open>0x0005\<close> gives two bytes for the value 5.
\<close>

theorem InterpretString_hex:
  "(scanDigits 16 0 ds = Some n \<and> (x = CHR ''x'' \<or> x = CHR ''X'') \<longrightarrow>
      (\<exists>bs. InterpretString fs vi (CHR ''0'' # x # ds) = Returns (bs, None) \<and>
            length bs = (length ds + 1) div 2 \<and>
            SetBytes bs = int n \<and>
            (bs = Bytes (int n) \<longleftrightarrow> bs = [] \<or> hd bs \<noteq> 0)))
   \<and> InterpretString fs vi ''0x0005'' = Returns ([0x00, 0x05], None)
   \<and> InterpretString fs vi ''0xFF'' = Returns ([0xFF], None)"
proof (intro conjI impI)
  assume a: "scanDigits 16 0 ds = Some n \<and> (x = CHR ''x'' \<or> x = CHR ''X'')"
  let ?padded = "if length ds mod 2 = 1 then CHR ''0'' # ds else ds"
  from a scanDigits_no_separator [of 16 0 ds n] have "CHR ''|'' \<notin> set (CHR ''0'' # x # ds)"
    by auto
  with a have "InterpretString fs vi (CHR ''0'' # x # ds) =
      Returns (interpretUnsignedNumber (CHR ''0'' # x # ds))"
    by (intro InterpretString_general_number) auto
  with a have run: "InterpretString fs vi (CHR ''0'' # x # ds) = Returns (hex_DecodeString ?padded)"
    by (simp add: interpretUnsignedNumber_hex)
  have "even (length ?padded)"
    by (simp add: even_iff_mod_2_eq_zero) presburger
  moreover from a have "scanDigits 16 0 ?padded = Some n"
    by (simp add: digitVal_def)
  ultimately obtain bs where bs: "hex_DecodeString ?padded = (bs, None)"
    "length bs = length ?padded div 2" "beValue 0 bs = n"
    using hex_DecodeString_value by blast
  from bs(2) have len: "length bs = (length ds + 1) div 2"
    by (simp split: if_splits) presburger
  have "bs = natBytes n \<longleftrightarrow> bs = [] \<or> hd bs \<noteq> 0"
    using natBytes_beValue [of bs] natBytes_no_leading_zero [of n] bs(3) by auto
  with run bs len
  show "\<exists>bs. InterpretString fs vi (CHR ''0'' # x # ds) = Returns (bs, None) \<and>
            length bs = (length ds + 1) div 2 \<and>
            SetBytes bs = int n \<and>
            (bs = Bytes (int n) \<longleftrightarrow> bs = [] \<or> hd bs \<noteq> 0)"
    by (simp add: SetBytes_def beValue_def Bytes_def)
next
  show "InterpretString fs vi ''0x0005'' = Returns ([0x00, 0x05], None)"
    by (simp add: eval_defs)
next
  show "InterpretString fs vi ''0xFF'' = Returns ([0xFF], None)"
    by (simp add: eval_defs)
qed

theorem InterpretString_hex_witness:
  "bytes_of (InterpretString example_fs example_vi ''0Xabc'') = [0x0A, 0xBC] \<and>
   length (bytes_of (InterpretString example_fs example_vi ''0Xabc'')) = 2 \<and>
   SetBytes (bytes_of (InterpretString example_fs example_vi ''0Xabc'')) = 2748"
  using InterpretString_hex [of "''abc''" 2748 "CHR ''X''" example_fs example_vi]
  by (auto simp add: eval_defs bytes_of_def)

theorem InterpretString_hex_counterexample:
  "InterpretString example_fs example_vi ''0x0005'' = Returns ([0x00, 0x05], None) \<and>
   SetBytes [0x00, 0x05] = 5 \<and> Bytes 5 = [0x05] \<and>
   InterpretString example_fs example_vi ''0x0005'' \<noteq> Returns (Bytes 5, None) \<and>
   hd (bytes_of (InterpretString example_fs example_vi ''0x0005'')) = 0x00"
  by (simp add: eval_defs bytes_of_def)




text \<open>
  Claim C8 says that every numeric input that does not parse under its base fails with an
  error naming the offending text and the base, and with no partial bytes. The binary and
  the base-10 rule do so; the hexadecimal rule hands back what \<^verbatim>\<open>hex.DecodeString\<close> returns:
  the bytes decoded before the bad digit, next to an error that carries only that digit.
  The evaluation below shows the three rules side by side.
\<close>

theorem InterpretString_malformed_number_eval:
  "InterpretString fs vi ''0x12zz'' = Returns ([0x12], Some (ErrHexInvalidByte (CHR ''z''))) \<and>
   InterpretString fs vi ''0b12'' = Returns ([], Some (ErrParseBinary ''0b12'')) \<and>
   InterpretString fs vi ''12a'' = Returns ([], Some (ErrParseBase10 ''12a''))"
  by (simp add: eval_defs)

text \<open>
  Claim C9, amended. For an unsigned fixed-width literal whose remainder is a minus sign
  followed by a base-10 number (decimal digits, possibly grouped by \<^verbatim>\<open>_\<close> and \<^verbatim>\<open>,\<close>) of
  value \<open>n\<close>, \<^verbatim>\<open>InterpretString\<close> does not reject the sign: the base-10 parser accepts the
  signed string and the encoder takes the bytes of the magnitude. When the minimal bytes of
  \<open>n\<close> fit the width, the call succeeds with the fixed-width encoding of \<open>n\<close>; when they do
  not, it fails with the does-not-fit error, as for any other value. In particular
  \<^verbatim>\<open>u8:-1\<close> gives the single byte 0x01.

  The claim as first stated (the call succeeds for every such literal) does not hold:
  \<^verbatim>\<open>u8:-256\<close> is parsed as -256, its magnitude needs two bytes, and the call fails.
\<close>

theorem InterpretString_unsigned_minus:
  "((up, ip, w) \<in> set fixedWidths \<and> CHR ''|'' \<notin> set ds \<and>
    scanDigits 10 0 (stripSeparators ds) = Some n \<and> stripSeparators ds \<noteq> [] \<longrightarrow>
      InterpretString fs vi (up @ CHR ''-'' # ds) =
        (if length (natBytes n) \<le> w then Returns (CopyAlignRight (natBytes n) w, None)
         else Returns ([], Some (ErrDoesNotFit (CHR ''-'' # ds) w))))
   \<and> InterpretString fs vi ''u8:-1'' = Returns ([0x01], None)"
proof (intro conjI impI)
  assume a: "(up, ip, w) \<in> set fixedWidths \<and> CHR ''|'' \<notin> set ds \<and>
    scanDigits 10 0 (stripSeparators ds) = Some n \<and> stripSeparators ds \<noteq> []"
  then have "CHR ''|'' \<notin> set (CHR ''-'' # ds)"
    by simp
  with a have "InterpretString fs vi (up @ CHR ''-'' # ds) =
      Returns (interpretUnsignedNumberFixedWidth (CHR ''-'' # ds) w)"
    by (intro InterpretString_unsigned [of up ip]) simp_all
  moreover from a have "0 < w"
    by (auto simp: fixedWidths_def)
  moreover from a have "interpretUnsignedNumber (CHR ''-'' # ds) = (natBytes n, None)"
    by (intro interpretUnsignedNumber_minus) simp_all
  ultimately show "InterpretString fs vi (up @ CHR ''-'' # ds) =
        (if length (natBytes n) \<le> w then Returns (CopyAlignRight (natBytes n) w, None)
         else Returns ([], Some (ErrDoesNotFit (CHR ''-'' # ds) w)))"
    by (simp add: interpretUnsignedNumberFixedWidth_def)
next
  show "InterpretString fs vi ''u8:-1'' = Returns ([0x01], None)"
    by (simp add: eval_defs)
qed

theorem InterpretString_unsigned_minus_witness:
  "InterpretString example_fs example_vi ''u16:-3_00'' = Returns ([0x01, 0x2C], None) \<and>
   InterpretString example_fs example_vi ''u8:-3_00'' =
     Returns ([], Some (ErrDoesNotFit ''-3_00'' 1))"
  using InterpretString_unsigned_minus [of u16Prefix i16Prefix 2 "''3_00''" 300 example_fs example_vi]
    InterpretString_unsigned_minus [of u8Prefix i8Prefix 1 "''3_00''" 300 example_fs example_vi]
  by (simp add: fixedWidths_def prefix_defs natBytes.simps CopyAlignRight_def digitVal_def
      stripSeparators_def ReplaceAll_def)

theorem InterpretString_unsigned_minus_counterexample:
  "InterpretString example_fs example_vi ''u8:-256'' =
     Returns ([], Some (ErrDoesNotFit ''-256'' 1)) \<and>
   SetString ''-256'' 10 = Some (- 256) \<and>
   failed (InterpretString example_fs example_vi ''u8:-256'') \<and>
   \<not> succeeded (InterpretString example_fs example_vi ''u8:-256'')"
  by (simp add: eval_defs failed_def succeeded_def)

text \<open>
  Claim C10. The grouping separators \<^verbatim>\<open>_\<close> and \<^verbatim>\<open>,\<close> are stripped before parsing for
  binary (\<^verbatim>\<open>0b\<close>, \<^verbatim>\<open>0B\<close>) and base-10 literals, but not for hexadecimal (\<^verbatim>\<open>0x\<close>, \<^verbatim>\<open>0X\<close>)
  literals, which are decoded from the raw text, so that a hexadecimal literal with a
  separator fails. In particular \<^verbatim>\<open>0b1_1\<close> gives the byte 0x03 and \<^verbatim>\<open>0x1_1\<close> fails.
\<close>

theorem InterpretString_separators:
  "(CHR ''|'' \<notin> set r \<and> (b = CHR ''b'' \<or> b = CHR ''B'') \<longrightarrow>
      InterpretString fs vi (CHR ''0'' # b # r) =
        Returns (case SetString (stripSeparators r) 2 of
                   None \<Rightarrow> ([], Some (ErrParseBinary (CHR ''0'' # b # r)))
                 | Some n \<Rightarrow> (Bytes n, None)))
   \<and> (CHR ''|'' \<notin> set r \<and> d \<in> set ''0123456789_,'' \<and>
       \<not> HasPrefix (d # r) ''0x'' \<and> \<not> HasPrefix (d # r) ''0X'' \<and>
       \<not> HasPrefix (d # r) ''0b'' \<and> \<not> HasPrefix (d # r) ''0B'' \<longrightarrow>
      InterpretString fs vi (d # r) =
        Returns (case SetString (stripSeparators (d # r)) 10 of
                   None \<Rightarrow> ([], Some (ErrParseBase10 (d # r)))
                 | Some n \<Rightarrow> (Bytes n, None)))
   \<and> (CHR ''|'' \<notin> set r \<and> (x = CHR ''x'' \<or> x = CHR ''X'') \<longrightarrow>
      InterpretString fs vi (CHR ''0'' # x # r) =
        Returns (hex_DecodeString (if length r mod 2 = 1 then CHR ''0'' # r else r))
      \<and> (CHR ''_'' \<in> set r \<or> CHR '','' \<in> set r \<longrightarrow>
           failed (InterpretString fs vi (CHR ''0'' # x # r))))
   \<and> InterpretString fs vi ''0b1_1'' = Returns ([0x03], None)
   \<and> InterpretString fs vi ''0x1_1'' = Returns ([0x01], Some (ErrHexInvalidByte (CHR ''_'')))"
proof (intro conjI impI)
  assume a: "CHR ''|'' \<notin> set r \<and> (b = CHR ''b'' \<or> b = CHR ''B'')"
  then have "InterpretString fs vi (CHR ''0'' # b # r) =
      Returns (interpretUnsignedNumber (CHR ''0'' # b # r))"
    by (intro InterpretString_general_number) auto
  with a show "InterpretString fs vi (CHR ''0'' # b # r) =
        Returns (case SetString (stripSeparators r) 2 of
                   None \<Rightarrow> ([], Some (ErrParseBinary (CHR ''0'' # b # r)))
                 | Some n \<Rightarrow> (Bytes n, None))"
    by (simp add: interpretUnsignedNumber_binary)
next
  assume a: "CHR ''|'' \<notin> set r \<and> d \<in> set ''0123456789_,'' \<and>
       \<not> HasPrefix (d # r) ''0x'' \<and> \<not> HasPrefix (d # r) ''0X'' \<and>
       \<not> HasPrefix (d # r) ''0b'' \<and> \<not> HasPrefix (d # r) ''0B''"
  then have "d \<notin> set [CHR ''f'', CHR ''k'', CHR ''t'', CHR ''s'', CHR 0x60, CHR 0x27, CHR ''a'',
      CHR ''u'', CHR ''i'', CHR ''-'', CHR ''+'']" "CHR ''|'' \<notin> set (d # r)"
    by auto
  then have "InterpretString fs vi (d # r) = Returns (interpretUnsignedNumber (d # r))"
    by (rule InterpretString_general_number)
  with a show "InterpretString fs vi (d # r) =
        Returns (case SetString (stripSeparators (d # r)) 10 of
                   None \<Rightarrow> ([], Some (ErrParseBase10 (d # r)))
                 | Some n \<Rightarrow> (Bytes n, None))"
    by (simp add: interpretUnsignedNumber_base10)
next
  assume a: "CHR ''|'' \<notin> set r \<and> (x = CHR ''x'' \<or> x = CHR ''X'')"
  then have "InterpretString fs vi (CHR ''0'' # x # r) =
      Returns (interpretUnsignedNumber (CHR ''0'' # x # r))"
    by (intro InterpretString_general_number) auto
  with a show hex: "InterpretString fs vi (CHR ''0'' # x # r) =
        Returns (hex_DecodeString (if length r mod 2 = 1 then CHR ''0'' # r else r))"
    by (simp add: interpretUnsignedNumber_hex)
  assume "CHR ''_'' \<in> set r \<or> CHR '','' \<in> set r"
  then obtain c where "c \<in> set (if length r mod 2 = 1 then CHR ''0'' # r else r)"
    "fromHexChar c = None"
    using fromHexChar_separator by (cases "length r mod 2 = 1") auto
  from hex_DecodeString_invalid [OF this] hex
  show "failed (InterpretString fs vi (CHR ''0'' # x # r))"
    by (cases "hex_DecodeString (if length r mod 2 = 1 then CHR ''0'' # r else r)")
      (auto simp: failed_def)
next
  show "InterpretString fs vi ''0b1_1'' = Returns ([0x03], None)"
    by (simp add: eval_defs)
next
  show "InterpretString fs vi ''0x1_1'' = Returns ([0x01], Some (ErrHexInvalidByte (CHR ''_'')))"
    by (simp add: eval_defs)
qed

theorem InterpretString_separators_witness:
  "InterpretString example_fs example_vi ''0B1,0_1'' = Returns ([0x05], None) \<and>
   InterpretString example_fs example_vi ''0_1,000'' = Returns ([0x03, 0xE8], None) \<and>
   failed (InterpretString example_fs example_vi ''0xAB,CD'')"
  using InterpretString_separators [of "''1,0_1''" "CHR ''B''" example_fs example_vi "CHR ''0''" "CHR ''x''"]
    InterpretString_separators [of "''_1,000''" "CHR ''B''" example_fs example_vi "CHR ''0''" "CHR ''x''"]
    InterpretString_separators [of "''AB,CD''" "CHR ''B''" example_fs example_vi "CHR ''0''" "CHR ''x''"]
  by (simp add: stripSeparators_def number_defs failed_def HasPrefix_def)

end
